theory Spec2Isabelle
  imports Main
begin

section \<open>The notebook \<open>transform_xbrl.ipynb\<close>: data model\<close>

text \<open>
  The notebook keeps three dictionaries from table name to dataframe:
  \<open>ferc1_dbf_raw_dfs\<close> (the legacy extraction), \<open>ferc1_xbrl_raw_dfs\<close> (the
  standardized extraction) and \<open>ferc1_transformed_dfs\<close>. A dictionary is a map from
  strings; the dataframes are opaque values of a type \<open>'df\<close>, which the notebook only
  moves around. Python exceptions are values of \<open>exn\<close>.
\<close>

type_synonym 'df raw_dfs = "string \<rightharpoonup> 'df"

datatype exn = KeyError string

record 'df notebook =
  ferc1_dbf_raw_dfs :: "'df raw_dfs"
  ferc1_xbrl_raw_dfs :: "'df raw_dfs"
  ferc1_transformed_dfs :: "'df raw_dfs"

subsection \<open>Dictionary operations used by the notebook\<close>

text \<open>\<open>d.pop(k)\<close>: the value at \<open>k\<close> and the dictionary without \<open>k\<close>; KeyError when
  \<open>k\<close> is absent.\<close>

definition dict_pop :: "'df raw_dfs \<Rightarrow> string \<Rightarrow> exn + ('df \<times> 'df raw_dfs)" where
  "dict_pop d k = (case d k of None \<Rightarrow> Inl (KeyError k) | Some v \<Rightarrow> Inr (v, d(k := None)))"

text \<open>\<open>d[k] = v\<close>: stores \<open>v\<close> at \<open>k\<close>, replacing whatever was there.\<close>

definition dict_setitem :: "'df raw_dfs \<Rightarrow> string \<Rightarrow> 'df \<Rightarrow> 'df raw_dfs" where
  "dict_setitem d k v = d(k \<mapsto> v)"

text \<open>\<open>d.get(k, None)\<close> and \<open>d.get(k)\<close>: the value at \<open>k\<close>, or None; never raises.\<close>

definition dict_get :: "'df raw_dfs \<Rightarrow> string \<Rightarrow> 'df option" where
  "dict_get d k = d k"

section \<open>The rename cell\<close>

text \<open>
  \<^verbatim>\<open>
  rename_dict = {
      "plants_steam_ferc1_duration": 'steam_electric_generating_plant_statistics_large_plants_402_duration',
      "plants_steam_ferc1_instant":'steam_electric_generating_plant_statistics_large_plants_402_instant',
      "fuel_ferc1_duration":'steam_electric_generating_plant_statistics_large_plants_fuel_statistics_402_duration'}
  for pudl_name, xbrl_name in rename_dict.items():
      ferc1_xbrl_raw_dfs[pudl_name] = ferc1_xbrl_raw_dfs.pop(xbrl_name)
  \<close>
  \<open>rename_dict.items()\<close> is the list of pairs \<open>(pudl_name, xbrl_name)\<close> in declared
  order. In each pair the second component is the key that is removed (the old key) and
  the first component is the key that receives the dataframe (the new key).
\<close>

definition rename_dict :: "(string \<times> string) list" where
  "rename_dict =
    [(''plants_steam_ferc1_duration'',
      ''steam_electric_generating_plant_statistics_large_plants_402_duration''),
     (''plants_steam_ferc1_instant'',
      ''steam_electric_generating_plant_statistics_large_plants_402_instant''),
     (''fuel_ferc1_duration'',
      ''steam_electric_generating_plant_statistics_large_plants_fuel_statistics_402_duration'')]"

text \<open>
  The loop. The right-hand side \<open>pop(xbrl_name)\<close> is evaluated first; when it raises,
  the loop stops and the dictionary stays as the earlier iterations left it. The result
  is the exception raised, if any, and the dictionary as the loop leaves it (the
  dictionary is mutated in place, so the caller sees it in both cases).
\<close>

fun reconcile :: "(string \<times> string) list \<Rightarrow> 'df raw_dfs \<Rightarrow> exn option \<times> 'df raw_dfs" where
  "reconcile [] d = (None, d)"
| "reconcile ((pudl_name, xbrl_name) # items) d =
     (case dict_pop d xbrl_name of
        Inl e \<Rightarrow> (Some e, d)
      | Inr (df, d') \<Rightarrow> reconcile items (dict_setitem d' pudl_name df))"

text \<open>The keys removed and the keys inserted by a list of items.\<close>

definition old_keys :: "(string \<times> string) list \<Rightarrow> string list" where
  "old_keys items = map snd items"

definition new_keys :: "(string \<times> string) list \<Rightarrow> string list" where
  "new_keys items = map fst items"

text \<open>The cell on the notebook's state: only \<open>ferc1_xbrl_raw_dfs\<close> is passed to the
  loop.\<close>

definition rename_cell :: "(string \<times> string) list \<Rightarrow> 'df notebook \<Rightarrow> exn option \<times> 'df notebook" where
  "rename_cell items nb =
     (case reconcile items (ferc1_xbrl_raw_dfs nb) of
        (r, d) \<Rightarrow> (r, nb\<lparr>ferc1_xbrl_raw_dfs := d\<rparr>))"

text \<open>
  The dictionary that a run without exception leaves when no key occurs twice in the
  items: a new key holds what its old key held, an old key is gone, every other key is
  as before. It is the closed form the loop is compared with below.
\<close>

definition renamed :: "(string \<times> string) list \<Rightarrow> 'df raw_dfs \<Rightarrow> 'df raw_dfs" where
  "renamed items S =
     (\<lambda>k. case map_of items k of
            Some xbrl_name \<Rightarrow> S xbrl_name
          | None \<Rightarrow> if k \<in> set (old_keys items) then None else S k)"

text \<open>
  The spec writes a RenameMap as a sequence of pairs (old-key, new-key). The loop takes
  the key it assigns from the first component of an item and the key it pops from the
  second, so the dictionary that makes the loop perform a RenameMap has the new key as
  key and the old key as value.
\<close>

definition rename_items :: "(string \<times> string) list \<Rightarrow> (string \<times> string) list" where
  "rename_items rename_map = map (\<lambda>(old_key, new_key). (new_key, old_key)) rename_map"

section \<open>The transform cell\<close>

text \<open>
  \<^verbatim>\<open>
  table = "fuel_ferc1"
  fuel_trans = FuelFerc1(table_name=table)
  fuel_df = fuel_trans.execute(
      raw_dbf=ferc1_dbf_raw_dfs.get(table),
      raw_xbrl_instant=ferc1_xbrl_raw_dfs.get(f"{table}_instant", None),
      raw_xbrl_duration=ferc1_xbrl_raw_dfs.get(f"{table}_duration", None),
  )

  table="plants_steam_ferc1"
  steam_df = PlantsSteamFerc1(
      table_name=table
  ).execute(
      raw_dbf=ferc1_dbf_raw_dfs.get(table),
      raw_xbrl_instant=ferc1_xbrl_raw_dfs.get(f"{table}_instant", None),
      raw_xbrl_duration=ferc1_xbrl_raw_dfs.get(f"{table}_duration", None),
      transformed_fuel=fuel_df,
  )
  \<close>
  The classes \<open>FuelFerc1\<close> and \<open>PlantsSteamFerc1\<close> come from
  \<open>pudl.transform.ferc1\<close>, whose code is not among the sources. The cell makes four
  calls into it: each class is instantiated (\<open>construct\<close>) and the \<open>execute\<close> method of
  the instance is called. Both are parameters of the model. Either may raise an
  exception, of some type \<open>'e\<close>, and either may have effects of its own: they take and
  return a state \<open>'w\<close> of everything outside the notebook's dictionaries, which the
  cell passes from one call to the next in the order in which Python makes the calls.
\<close>

datatype handler = FuelFerc1 | PlantsSteamFerc1

text \<open>The keyword arguments of \<open>execute\<close>: the three raw inputs, which every call
  passes, and the further keywords (\<open>transformed_fuel\<close>) as a dictionary.\<close>

record 'df execute_args =
  raw_dbf :: "'df option"
  raw_xbrl_instant :: "'df option"
  raw_xbrl_duration :: "'df option"
  kwargs :: "string \<rightharpoonup> 'df"

text \<open>The three lookups that both calls make, for the table at hand.\<close>

definition raw_inputs :: "'df notebook \<Rightarrow> string \<Rightarrow> (string \<rightharpoonup> 'df) \<Rightarrow> 'df execute_args" where
  "raw_inputs nb table kw =
     \<lparr>raw_dbf = dict_get (ferc1_dbf_raw_dfs nb) table,
      raw_xbrl_instant = dict_get (ferc1_xbrl_raw_dfs nb) (table @ ''_instant''),
      raw_xbrl_duration = dict_get (ferc1_xbrl_raw_dfs nb) (table @ ''_duration''),
      kwargs = kw\<rparr>"

text \<open>
  The cell. \<open>construct cls table w\<close> is \<open>cls(table_name=table)\<close> and
  \<open>execute cls self args w\<close> is \<open>self.execute(**args)\<close> for an instance \<open>self\<close> of
  \<open>cls\<close>. The first exception ends the cell; otherwise the result is the pair
  \<open>(fuel_df, steam_df)\<close>. For the second statement Python instantiates the class first,
  then evaluates the arguments, then calls the method.
\<close>

definition transform_cell ::
  "(handler \<Rightarrow> string \<Rightarrow> 'w \<Rightarrow> ('e + 'obj) \<times> 'w) \<Rightarrow>
   (handler \<Rightarrow> 'obj \<Rightarrow> 'df execute_args \<Rightarrow> 'w \<Rightarrow> ('e + 'df) \<times> 'w) \<Rightarrow>
   'df notebook \<Rightarrow> 'w \<Rightarrow> ('e + 'df \<times> 'df) \<times> 'w" where
  "transform_cell construct execute nb w =
     (let table = ''fuel_ferc1'' in
      case construct FuelFerc1 table w of
        (Inl e, w1) \<Rightarrow> (Inl e, w1)
      | (Inr fuel_trans, w1) \<Rightarrow>
          (case execute FuelFerc1 fuel_trans (raw_inputs nb table Map.empty) w1 of
             (Inl e, w2) \<Rightarrow> (Inl e, w2)
           | (Inr fuel_df, w2) \<Rightarrow>
               (let table = ''plants_steam_ferc1'' in
                case construct PlantsSteamFerc1 table w2 of
                  (Inl e, w3) \<Rightarrow> (Inl e, w3)
                | (Inr steam_trans, w3) \<Rightarrow>
                    (case execute PlantsSteamFerc1 steam_trans
                            (raw_inputs nb table [''transformed_fuel'' \<mapsto> fuel_df]) w3 of
                       (Inl e, w4) \<Rightarrow> (Inl e, w4)
                     | (Inr steam_df, w4) \<Rightarrow> (Inr (fuel_df, steam_df), w4)))))"

subsection \<open>Recording the calls of a run\<close>

text \<open>
  To speak about the order of the calls, the two operations are wrapped so that each
  call appends what happened to a log kept in the state: the instantiation with its
  outcome, the invocation of \<open>execute\<close> with the instance and the arguments, and the
  outcome of that invocation. The cell itself is run unchanged on the wrapped
  operations; an event is in the log only if the cell made the call.
\<close>

datatype ('obj, 'df, 'e) event =
    Constructed handler string "'e + 'obj"
  | Invoked handler 'obj "'df execute_args"
  | Finished handler "'e + 'df"

definition traced_construct ::
  "(handler \<Rightarrow> string \<Rightarrow> 'w \<Rightarrow> ('e + 'obj) \<times> 'w) \<Rightarrow>
   handler \<Rightarrow> string \<Rightarrow> ('obj, 'df, 'e) event list \<times> 'w \<Rightarrow>
   ('e + 'obj) \<times> (('obj, 'df, 'e) event list \<times> 'w)" where
  "traced_construct construct cls table =
     (\<lambda>(log, w). case construct cls table w of
        (r, w') \<Rightarrow> (r, (log @ [Constructed cls table r], w')))"

definition traced_execute ::
  "(handler \<Rightarrow> 'obj \<Rightarrow> 'df execute_args \<Rightarrow> 'w \<Rightarrow> ('e + 'df) \<times> 'w) \<Rightarrow>
   handler \<Rightarrow> 'obj \<Rightarrow> 'df execute_args \<Rightarrow> ('obj, 'df, 'e) event list \<times> 'w \<Rightarrow>
   ('e + 'df) \<times> (('obj, 'df, 'e) event list \<times> 'w)" where
  "traced_execute execute cls self args =
     (\<lambda>(log, w). case execute cls self args w of
        (r, w') \<Rightarrow> (r, (log @ [Invoked cls self args, Finished cls r], w')))"

definition run_log ::
  "(handler \<Rightarrow> string \<Rightarrow> 'w \<Rightarrow> ('e + 'obj) \<times> 'w) \<Rightarrow>
   (handler \<Rightarrow> 'obj \<Rightarrow> 'df execute_args \<Rightarrow> 'w \<Rightarrow> ('e + 'df) \<times> 'w) \<Rightarrow>
   'df notebook \<Rightarrow> 'w \<Rightarrow> ('obj, 'df, 'e) event list" where
  "run_log construct execute nb w =
     fst (snd (transform_cell (traced_construct construct) (traced_execute execute) nb ([], w)))"

subsection \<open>A sample run\<close>

text \<open>
  Stand-ins for the external code, for running the cell on concrete values: the state
  counts the calls, an instance is the table name it was built with, and \<open>execute\<close>
  raises when it gets no raw input at all and otherwise returns 10, or one more than
  \<open>transformed_fuel\<close> when that keyword is passed. In the sample notebook the legacy
  extraction has \<open>fuel_ferc1\<close> and the standardized one has only
  \<open>plants_steam_ferc1_duration\<close>; the empty notebook has nothing.
\<close>

definition sample_construct :: "handler \<Rightarrow> string \<Rightarrow> nat \<Rightarrow> (string + string) \<times> nat" where
  "sample_construct cls table w = (Inr table, Suc w)"

definition sample_execute ::
  "handler \<Rightarrow> string \<Rightarrow> nat execute_args \<Rightarrow> nat \<Rightarrow> (string + nat) \<times> nat" where
  "sample_execute cls self args w =
     (if raw_dbf args = None \<and> raw_xbrl_instant args = None \<and> raw_xbrl_duration args = None
      then Inl ''no raw input''
      else Inr (case kwargs args ''transformed_fuel'' of
                  None \<Rightarrow> 10
                | Some fuel_df \<Rightarrow> Suc fuel_df),
      Suc w)"

definition sample_notebook :: "nat notebook" where
  "sample_notebook =
     \<lparr>ferc1_dbf_raw_dfs = [''fuel_ferc1'' \<mapsto> 7],
      ferc1_xbrl_raw_dfs = [''plants_steam_ferc1_duration'' \<mapsto> 1],
      ferc1_transformed_dfs = Map.empty\<rparr>"

definition empty_notebook :: "nat notebook" where
  "empty_notebook =
     \<lparr>ferc1_dbf_raw_dfs = Map.empty, ferc1_xbrl_raw_dfs = Map.empty,
      ferc1_transformed_dfs = Map.empty\<rparr>"

section \<open>The dispatcher\<close>

text \<open>
  Modelled from the spec: the dispatcher and its check of a handler's declared
  dependencies. The code that would make the check is in \<open>pudl.transform.ferc1\<close>,
  which is missing from the sources; the notebook only calls it. The contract is
  \<open>dispatch(table_name, dependency_results)\<close>, with the raw lookups of the table's
  instant and duration variants as further inputs, each optional. The handler is looked
  up by table name in a registry, which the spec leaves unspecified: it is a parameter
  here, and so are each handler's declared dependencies and its own logic
  (\<open>produce\<close>). Dispatch fails with \<open>MissingDependencyError\<close> if the handler declares a
  dependency that was not supplied, and otherwise invokes the handler with the raw
  inputs and the dependency results and returns the produced table. For a table name
  with no handler the spec gives no behaviour: the model's result is \<open>None\<close> there.
\<close>

datatype dispatch_error = MissingDependencyError string

record 'df transform_handler =
  declared_dependencies :: "string list"
  produce :: "'df option \<Rightarrow> 'df option \<Rightarrow> (string \<rightharpoonup> 'df) \<Rightarrow> 'df"

definition dispatch ::
  "(string \<rightharpoonup> 'df transform_handler) \<Rightarrow>
     string \<Rightarrow> 'df option \<Rightarrow> 'df option \<Rightarrow> (string \<rightharpoonup> 'df) \<Rightarrow>
     (dispatch_error + 'df) option" where
  "dispatch registry table_name raw_instant raw_duration dependency_results =
     (case registry table_name of
        None \<Rightarrow> None
      | Some h \<Rightarrow>
          Some (case find (\<lambda>dep. dependency_results dep = None) (declared_dependencies h) of
                  Some dep \<Rightarrow> Inl (MissingDependencyError dep)
                | None \<Rightarrow> Inr (produce h raw_instant raw_duration dependency_results)))"

text \<open>
  A registry for running the dispatcher on concrete values: the two tables of the
  notebook, with the dependencies that its calls pass, and a table whose handler
  declares two dependencies.
\<close>

definition sample_registry :: "string \<rightharpoonup> nat transform_handler" where
  "sample_registry =
     [''fuel_ferc1'' \<mapsto> \<lparr>declared_dependencies = [], produce = \<lambda>i d deps. 0\<rparr>,
      ''plants_steam_ferc1'' \<mapsto>
        \<lparr>declared_dependencies = [''transformed_fuel''], produce = \<lambda>i d deps. 1\<rparr>,
      ''two_deps'' \<mapsto> \<lparr>declared_dependencies = [''p'', ''q''], produce = \<lambda>i d deps. 2\<rparr>]"

section \<open>Properties of the rename loop\<close>

text \<open>
  C6: applying an empty rename map is a no-op: the loop raises nothing and the
  dictionary it leaves is the one it was given.
\<close>

theorem reconcile_empty: "reconcile [] S = (None, S)"
  by simp

subsection \<open>One iteration, and runs over a concatenation\<close>

lemma reconcile_Cons:
  "reconcile ((n, o') # items) d =
     (case d o' of None \<Rightarrow> (Some (KeyError o'), d)
      | Some v \<Rightarrow> reconcile items ((d(o' := None))(n \<mapsto> v)))"
  by (simp add: dict_pop_def dict_setitem_def split: option.splits)

lemma reconcile_append:
  "reconcile (xs @ ys) d =
     (case reconcile xs d of (None, d') \<Rightarrow> reconcile ys d' | (Some e, d') \<Rightarrow> (Some e, d'))"
proof (induction xs arbitrary: d)
  case Nil
  show ?case by simp
next
  case (Cons p xs)
  obtain n o' where p: "p = (n, o')" by (cases p)
  show ?case
  proof (cases "d o'")
    case None
    then show ?thesis by (simp add: p reconcile_Cons del: reconcile.simps)
  next
    case (Some v)
    have "reconcile ((p # xs) @ ys) d = reconcile (xs @ ys) ((d(o' := None))(n \<mapsto> v))"
      by (simp add: p reconcile_Cons Some del: reconcile.simps)
    also note Cons.IH
    also have "reconcile xs ((d(o' := None))(n \<mapsto> v)) = reconcile (p # xs) d"
      by (simp add: p reconcile_Cons Some del: reconcile.simps)
    finally show ?thesis .
  qed
qed

lemma renamed_Cons:
  assumes dis: "distinct (old_keys ((n, o') # items) @ new_keys ((n, o') # items))"
    and v: "S o' = Some v"
  shows "renamed items ((S(o' := None))(n \<mapsto> v)) = renamed ((n, o') # items) S"
proof
  fix k
  have no: "n \<noteq> o'" and n1: "n \<notin> fst ` set items" and n2: "n \<notin> snd ` set items"
    and o1: "o' \<notin> fst ` set items" and o2: "o' \<notin> snd ` set items"
    using dis by (auto simp: old_keys_def new_keys_def)
  show "renamed items ((S(o' := None))(n \<mapsto> v)) k = renamed ((n, o') # items) S k"
  proof (cases "map_of items k")
    case None
    then have kn: "k \<notin> fst ` set items" by (simp add: map_of_eq_None_iff)
    show ?thesis
      using None n2 o2 no v by (auto simp: renamed_def old_keys_def)
  next
    case (Some x)
    then have "(k, x) \<in> set items" by (rule map_of_SomeD)
    then have "k \<in> fst ` set items" and "x \<in> snd ` set items" by force+
    then have "k \<noteq> n" and "x \<noteq> n" and "x \<noteq> o'" using n1 n2 o2 by auto
    then show ?thesis using Some by (simp add: renamed_def)
  qed
qed

lemma reconcile_renamed:
  "distinct (old_keys items @ new_keys items) \<Longrightarrow> set (old_keys items) \<subseteq> dom S \<Longrightarrow>
   reconcile items S = (None, renamed items S)"
proof (induction items arbitrary: S)
  case Nil
  show ?case by (simp add: renamed_def old_keys_def fun_eq_iff)
next
  case (Cons p items)
  obtain n o' where p: "p = (n, o')" by (cases p)
  from Cons.prems(2) obtain v where v: "S o' = Some v"
    by (auto simp: p old_keys_def)
  let ?S1 = "(S(o' := None))(n \<mapsto> v)"
  have dis: "distinct (old_keys items @ new_keys items)"
    using Cons.prems(1) by (auto simp: p old_keys_def new_keys_def)
  have "o' \<notin> set (old_keys items)"
    using Cons.prems(1) by (auto simp: p old_keys_def new_keys_def)
  then have sub: "set (old_keys items) \<subseteq> dom ?S1"
    using Cons.prems(2) by (auto simp: p old_keys_def)
  have "reconcile (p # items) S = reconcile items ?S1"
    by (simp add: p reconcile_Cons v del: reconcile.simps)
  also have "\<dots> = (None, renamed items ?S1)" by (rule Cons.IH [OF dis sub])
  also have "renamed items ?S1 = renamed (p # items) S"
    using Cons.prems(1) v unfolding p by (rule renamed_Cons)
  finally show ?case .
qed

lemma renamed_new_key:
  assumes "distinct (old_keys items @ new_keys items)" and "(n, o') \<in> set items"
  shows "renamed items S n = S o'" and "renamed items S o' = None"
proof -
  have "distinct (map fst items)" using assms(1) by (simp add: new_keys_def)
  then have "map_of items n = Some o'" using assms(2) by (rule map_of_is_SomeI)
  then show "renamed items S n = S o'" by (simp add: renamed_def)
  have o: "o' \<in> set (old_keys items)" using assms(2) by (force simp: old_keys_def)
  then have "o' \<notin> fst ` set items" using assms(1) by (auto simp: new_keys_def)
  then have "map_of items o' = None" by (simp add: map_of_eq_None_iff)
  then show "renamed items S o' = None" using o by (simp add: renamed_def)
qed

lemma renamed_other:
  "k \<notin> set (old_keys items) \<Longrightarrow> k \<notin> set (new_keys items) \<Longrightarrow> renamed items S k = S k"
  by (simp add: renamed_def new_keys_def map_of_eq_None_iff [THEN iffD2])

lemma dom_renamed:
  assumes "set (old_keys items) \<subseteq> dom S"
  shows "dom (renamed items S) = (dom S - set (old_keys items)) \<union> set (new_keys items)"
proof (rule set_eqI)
  fix k
  show "k \<in> dom (renamed items S) \<longleftrightarrow> k \<in> (dom S - set (old_keys items)) \<union> set (new_keys items)"
  proof (cases "map_of items k")
    case None
    then have "k \<notin> set (new_keys items)" by (simp add: new_keys_def map_of_eq_None_iff)
    then show ?thesis using None by (auto simp: renamed_def dom_def)
  next
    case (Some x)
    then have "(k, x) \<in> set items" by (rule map_of_SomeD)
    then have "k \<in> set (new_keys items)" and "x \<in> set (old_keys items)"
      by (force simp: new_keys_def old_keys_def)+
    then show ?thesis using Some assms by (auto simp: renamed_def)
  qed
qed

subsection \<open>Renaming with a map whose keys do not overlap\<close>

text \<open>
  C1, as the claim states it, fails where \<open>S\<close> holds a key that the items do not
  name: the hypotheses hold, the loop raises nothing, and the result keeps the entry at
  \<open>e\<close>, so its keys are not exactly the new keys.
\<close>

theorem reconcile_exactly_new_keys_counterexample:
  "distinct (old_keys [(''b'', ''a''), (''d'', ''c'')] @ new_keys [(''b'', ''a''), (''d'', ''c'')])
   \<and> set (old_keys [(''b'', ''a''), (''d'', ''c'')]) \<subseteq> dom [''a'' \<mapsto> (1::nat), ''c'' \<mapsto> 2, ''e'' \<mapsto> 3]
   \<and> fst (reconcile [(''b'', ''a''), (''d'', ''c'')] [''a'' \<mapsto> (1::nat), ''c'' \<mapsto> 2, ''e'' \<mapsto> 3]) = None
   \<and> ''e'' \<in> dom (snd (reconcile [(''b'', ''a''), (''d'', ''c'')] [''a'' \<mapsto> (1::nat), ''c'' \<mapsto> 2, ''e'' \<mapsto> 3]))
   \<and> ''e'' \<notin> set (new_keys [(''b'', ''a''), (''d'', ''c'')])
   \<and> dom (snd (reconcile [(''b'', ''a''), (''d'', ''c'')] [''a'' \<mapsto> (1::nat), ''c'' \<mapsto> 2, ''e'' \<mapsto> 3]))
        \<noteq> set (new_keys [(''b'', ''a''), (''d'', ''c'')])"
proof -
  let ?R = "[(''b'', ''a''), (''d'', ''c'')]"
  let ?S = "[''a'' \<mapsto> (1::nat), ''c'' \<mapsto> 2, ''e'' \<mapsto> 3]"
  have h: "distinct (old_keys ?R @ new_keys ?R)" "set (old_keys ?R) \<subseteq> dom ?S"
    by (simp_all add: old_keys_def new_keys_def)
  have r: "fst (reconcile ?R ?S) = None"
    by (simp add: dict_pop_def dict_setitem_def)
  have e: "''e'' \<in> dom (snd (reconcile ?R ?S))"
    by (simp add: dict_pop_def dict_setitem_def)
  have n: "''e'' \<notin> set (new_keys ?R)"
    by (simp add: new_keys_def)
  from e n have "dom (snd (reconcile ?R ?S)) \<noteq> set (new_keys ?R)" by metis
  with h r e n show ?thesis by blast
qed

text \<open>
  C1 (amended): let no key occur more than once among the old keys and the new keys of
  the items, and let every old key be present in \<open>S\<close>. Then the loop raises nothing. It
  applies the pairs in declared order: each pair finds its old key in the dictionary
  that the pairs before it left, removes that entry and stores its dataframe at the new
  key. In the dictionary \<open>S'\<close> that results, every new key holds the dataframe that
  \<open>S\<close> held at the corresponding old key and every old key is absent; the keys of
  \<open>S'\<close> are those of \<open>S\<close> with the old keys replaced by the new keys, which are exactly
  the new keys when \<open>S\<close> holds the old keys only. (Old key: \<open>xbrl_name\<close>, the second
  component of an item; new key: \<open>pudl_name\<close>, the first.)
\<close>

theorem reconcile_nonoverlapping:
  assumes dis: "distinct (old_keys items @ new_keys items)"
    and pres: "set (old_keys items) \<subseteq> dom S"
  shows "\<exists>S'. reconcile items S = (None, S')
     \<and> (\<forall>pre pudl_name xbrl_name post. items = pre @ (pudl_name, xbrl_name) # post \<longrightarrow>
          (\<exists>d df. reconcile pre S = (None, d) \<and> d xbrl_name = Some df \<and>
             reconcile (pre @ [(pudl_name, xbrl_name)]) S =
               (None, (d(xbrl_name := None))(pudl_name \<mapsto> df))))
     \<and> (\<forall>(pudl_name, xbrl_name) \<in> set items.
          S' pudl_name = S xbrl_name \<and> S' xbrl_name = None)
     \<and> dom S' = (dom S - set (old_keys items)) \<union> set (new_keys items)
     \<and> (dom S = set (old_keys items) \<longrightarrow> dom S' = set (new_keys items))"
proof (intro exI conjI)
  show "reconcile items S = (None, renamed items S)"
    using dis pres by (rule reconcile_renamed)
  show "\<forall>pre pudl_name xbrl_name post. items = pre @ (pudl_name, xbrl_name) # post \<longrightarrow>
          (\<exists>d df. reconcile pre S = (None, d) \<and> d xbrl_name = Some df \<and>
             reconcile (pre @ [(pudl_name, xbrl_name)]) S =
               (None, (d(xbrl_name := None))(pudl_name \<mapsto> df)))"
  proof (intro allI impI)
    fix pre n o' post
    assume split: "items = pre @ (n, o') # post"
    have dpre: "distinct (old_keys pre @ new_keys pre)"
      using dis by (auto simp: split old_keys_def new_keys_def)
    have ppre: "set (old_keys pre) \<subseteq> dom S"
      using pres by (auto simp: split old_keys_def)
    have run: "reconcile pre S = (None, renamed pre S)"
      using dpre ppre by (rule reconcile_renamed)
    have "o' \<notin> set (old_keys pre)" and "o' \<notin> set (new_keys pre)"
      using dis by (auto simp: split old_keys_def new_keys_def)
    then have same: "renamed pre S o' = S o'" by (rule renamed_other)
    obtain df where df: "S o' = Some df"
      using pres by (auto simp: split old_keys_def)
    have "reconcile (pre @ [(n, o')]) S =
            (None, ((renamed pre S)(o' := None))(n \<mapsto> df))"
      by (simp add: reconcile_append run reconcile_Cons same df del: reconcile.simps, simp)
    with run same df show "\<exists>d df. reconcile pre S = (None, d) \<and> d o' = Some df \<and>
             reconcile (pre @ [(n, o')]) S = (None, (d(o' := None))(n \<mapsto> df))"
      by auto
  qed
  show "\<forall>(pudl_name, xbrl_name) \<in> set items.
          renamed items S pudl_name = S xbrl_name \<and> renamed items S xbrl_name = None"
    using renamed_new_key [OF dis] by auto
  show d: "dom (renamed items S) = (dom S - set (old_keys items)) \<union> set (new_keys items)"
    using pres by (rule dom_renamed)
  show "dom S = set (old_keys items) \<longrightarrow> dom (renamed items S) = set (new_keys items)"
    using d by auto
qed

text \<open>The statement at a dictionary with the old keys \<open>a\<close>, \<open>c\<close> and a further key
  \<open>e\<close>.\<close>

theorem reconcile_nonoverlapping_witness:
  "distinct (old_keys [(''b'', ''a''), (''d'', ''c'')] @ new_keys [(''b'', ''a''), (''d'', ''c'')])
   \<and> set (old_keys [(''b'', ''a''), (''d'', ''c'')]) \<subseteq> dom [''a'' \<mapsto> (1::nat), ''c'' \<mapsto> 2, ''e'' \<mapsto> 3]
   \<and> (\<exists>S'. reconcile [(''b'', ''a''), (''d'', ''c'')] [''a'' \<mapsto> (1::nat), ''c'' \<mapsto> 2, ''e'' \<mapsto> 3] = (None, S')
         \<and> S' ''b'' = Some 1 \<and> S' ''a'' = None \<and> S' ''d'' = Some 2 \<and> S' ''c'' = None
         \<and> dom S' = {''b'', ''d'', ''e''})"
proof -
  let ?R = "[(''b'', ''a''), (''d'', ''c'')]"
  let ?S = "[''a'' \<mapsto> (1::nat), ''c'' \<mapsto> 2, ''e'' \<mapsto> 3]"
  have h1: "distinct (old_keys ?R @ new_keys ?R)" by (simp add: old_keys_def new_keys_def)
  have h2: "set (old_keys ?R) \<subseteq> dom ?S" by (simp add: old_keys_def)
  from reconcile_nonoverlapping [OF h1 h2] obtain S' where
    r: "reconcile ?R ?S = (None, S')"
    and k: "\<forall>(pudl_name, xbrl_name) \<in> set ?R. S' pudl_name = ?S xbrl_name \<and> S' xbrl_name = None"
    and d: "dom S' = (dom ?S - set (old_keys ?R)) \<union> set (new_keys ?R)"
    by blast
  from k have "S' ''b'' = Some 1 \<and> S' ''a'' = None \<and> S' ''d'' = Some 2 \<and> S' ''c'' = None"
    by simp
  moreover from d have "dom S' = {''b'', ''d'', ''e''}"
    by (auto simp: old_keys_def new_keys_def)
  ultimately show ?thesis using h1 h2 r by blast
qed

subsection \<open>A missing old key\<close>

text \<open>
  C2, as the claim states it, fails: the pair \<open>(b, a)\<close> is applied before the pair
  \<open>(d, c)\<close> raises KeyError for the absent \<open>c\<close>, and the dictionary is left with \<open>a\<close>
  renamed to \<open>b\<close>. It is not the dictionary the loop was given.
\<close>

theorem reconcile_partial_counterexample:
  "fst (reconcile [(''b'', ''a''), (''d'', ''c'')] [''a'' \<mapsto> (1::nat)]) = Some (KeyError ''c'')
   \<and> snd (reconcile [(''b'', ''a''), (''d'', ''c'')] [''a'' \<mapsto> (1::nat)]) ''a'' = None
   \<and> snd (reconcile [(''b'', ''a''), (''d'', ''c'')] [''a'' \<mapsto> (1::nat)]) ''b'' = Some 1
   \<and> snd (reconcile [(''b'', ''a''), (''d'', ''c'')] [''a'' \<mapsto> (1::nat)]) \<noteq> [''a'' \<mapsto> (1::nat)]"
proof -
  let ?run = "reconcile [(''b'', ''a''), (''d'', ''c'')] [''a'' \<mapsto> (1::nat)]"
  have e: "fst ?run = Some (KeyError ''c'')"
    and a: "snd ?run ''a'' = None" and b: "snd ?run ''b'' = Some 1"
    by (simp_all add: dict_pop_def dict_setitem_def)
  have "snd ?run \<noteq> [''a'' \<mapsto> (1::nat)]"
  proof
    assume "snd ?run = [''a'' \<mapsto> (1::nat)]"
    then have "snd ?run ''a'' = [''a'' \<mapsto> (1::nat)] ''a''" by (rule arg_cong)
    with a show False by simp
  qed
  with e a b show ?thesis by blast
qed

text \<open>
  C2 (amended): when the pairs before a pair run without exception and leave a
  dictionary \<open>d\<close> in which the pair's old key is absent, the loop raises KeyError for
  that old key (the spec's \<open>KeyNotFoundError\<close>) and the dictionary is left as \<open>d\<close>: the
  earlier renames stay applied, the failing pair and the pairs after it are not applied.
  With no pair before it (\<open>pre = []\<close>, \<open>d = S\<close>) the dictionary is unchanged.
\<close>

theorem reconcile_missing_old_key:
  assumes "reconcile pre S = (None, d)" and "d xbrl_name = None"
  shows "reconcile (pre @ (pudl_name, xbrl_name) # post) S = (Some (KeyError xbrl_name), d)"
  using assms by (simp add: reconcile_append reconcile_Cons del: reconcile.simps)

text \<open>One rename is applied, the second pair's old key \<open>c\<close> is missing.\<close>

theorem reconcile_missing_old_key_witness:
  "reconcile [(''b'', ''a'')] [''a'' \<mapsto> (1::nat)] = (None, [''b'' \<mapsto> 1])
   \<and> [''b'' \<mapsto> (1::nat)] ''c'' = None
   \<and> reconcile ([(''b'', ''a'')] @ (''d'', ''c'') # [(''f'', ''e'')]) [''a'' \<mapsto> (1::nat)]
       = (Some (KeyError ''c''), [''b'' \<mapsto> 1])"
proof -
  have h1: "reconcile [(''b'', ''a'')] [''a'' \<mapsto> (1::nat)] = (None, [''b'' \<mapsto> 1])"
    by (simp add: dict_pop_def dict_setitem_def fun_eq_iff)
  have h2: "[''b'' \<mapsto> (1::nat)] ''c'' = None" by simp
  from reconcile_missing_old_key [OF h1 h2] h1 h2 show ?thesis by blast
qed

subsection \<open>A new key that is already present\<close>

text \<open>
  C3, as the claim states it, fails: with \<open>a\<close> and \<open>b\<close> both present, renaming
  \<open>a\<close> to \<open>b\<close> raises nothing, and the dataframe that \<open>b\<close> held is replaced by the one
  from \<open>a\<close>.
\<close>

theorem reconcile_collision_counterexample:
  "fst (reconcile [(''b'', ''a'')] [''a'' \<mapsto> (1::nat), ''b'' \<mapsto> 2]) = None
   \<and> snd (reconcile [(''b'', ''a'')] [''a'' \<mapsto> (1::nat), ''b'' \<mapsto> 2]) ''b'' = Some 1
   \<and> snd (reconcile [(''b'', ''a'')] [''a'' \<mapsto> (1::nat), ''b'' \<mapsto> 2]) ''a'' = None"
  by (simp add: dict_pop_def dict_setitem_def)

text \<open>
  C3 (amended): when the pairs before a pair run without exception and leave a
  dictionary \<open>d\<close> that holds both the pair's old key and its new key, the pair is applied
  without exception: the old key is removed and the entry at the new key is replaced by
  the old key's dataframe. The loop has no collision check.
\<close>

theorem reconcile_collision_overwrites:
  assumes "reconcile pre S = (None, d)" and "d xbrl_name = Some df" and "d pudl_name = Some df'"
  shows "reconcile (pre @ [(pudl_name, xbrl_name)]) S =
           (None, (d(xbrl_name := None))(pudl_name \<mapsto> df))"
  using assms by (simp add: reconcile_append reconcile_Cons del: reconcile.simps, simp)

text \<open>Both keys present, no pair before.\<close>

theorem reconcile_collision_overwrites_witness:
  "reconcile [] [''a'' \<mapsto> (1::nat), ''b'' \<mapsto> 2] = (None, [''a'' \<mapsto> (1::nat), ''b'' \<mapsto> 2])
   \<and> [''a'' \<mapsto> (1::nat), ''b'' \<mapsto> 2] ''a'' = Some 1
   \<and> [''a'' \<mapsto> (1::nat), ''b'' \<mapsto> 2] ''b'' = Some 2
   \<and> reconcile ([] @ [(''b'', ''a'')]) [''a'' \<mapsto> (1::nat), ''b'' \<mapsto> 2] =
        (None, ([''a'' \<mapsto> (1::nat), ''b'' \<mapsto> 2](''a'' := None))(''b'' \<mapsto> 1))"
proof -
  let ?S = "[''a'' \<mapsto> (1::nat), ''b'' \<mapsto> 2]"
  have h1: "reconcile [] ?S = (None, ?S)" by simp
  have h2: "?S ''a'' = Some 1" by simp
  have h3: "?S ''b'' = Some 2" by simp
  from reconcile_collision_overwrites [OF h1 h2 h3] h1 h2 h3 show ?thesis by blast
qed

subsection \<open>The scenario with the notebook's table names\<close>

text \<open>
  C5: for all tables \<open>T1\<close> and \<open>T2\<close>, the RenameMap that renames
  \<open>plants_steam_ferc1_duration\<close> to
  \<open>steam_electric_generating_plant_statistics_large_plants_402_duration\<close> and
  \<open>fuel_ferc1_duration\<close> to
  \<open>steam_electric_generating_plant_statistics_large_plants_fuel_statistics_402_duration\<close>,
  applied by the loop to the dictionary that holds \<open>T1\<close> and \<open>T2\<close> at the two old keys,
  raises nothing and yields exactly the dictionary that holds \<open>T1\<close> and \<open>T2\<close> at the two
  new keys.
\<close>

theorem rename_scenario:
  "reconcile
     (rename_items
        [(''plants_steam_ferc1_duration'',
          ''steam_electric_generating_plant_statistics_large_plants_402_duration''),
         (''fuel_ferc1_duration'',
          ''steam_electric_generating_plant_statistics_large_plants_fuel_statistics_402_duration'')])
     [''plants_steam_ferc1_duration'' \<mapsto> T1, ''fuel_ferc1_duration'' \<mapsto> T2]
   = (None,
      [''steam_electric_generating_plant_statistics_large_plants_402_duration'' \<mapsto> T1,
       ''steam_electric_generating_plant_statistics_large_plants_fuel_statistics_402_duration'' \<mapsto> T2])"
  by (simp add: rename_items_def dict_pop_def dict_setitem_def fun_eq_iff)

text \<open>The notebook's own \<open>rename_dict\<close> has the PUDL names as keys, so it renames the
  other way, from the XBRL names to the PUDL names. Its run on the three tables that
  the notebook's settings extract:\<close>

lemma rename_dict_run:
  "reconcile rename_dict
     [''steam_electric_generating_plant_statistics_large_plants_fuel_statistics_402_duration'' \<mapsto> T1,
      ''steam_electric_generating_plant_statistics_large_plants_402_duration'' \<mapsto> T2,
      ''steam_electric_generating_plant_statistics_large_plants_402_instant'' \<mapsto> T3]
   = (None, [''fuel_ferc1_duration'' \<mapsto> T1, ''plants_steam_ferc1_duration'' \<mapsto> T2,
             ''plants_steam_ferc1_instant'' \<mapsto> T3])"
  by (simp add: rename_dict_def dict_pop_def dict_setitem_def fun_eq_iff)

subsection \<open>What the rename leaves alone\<close>

lemma reconcile_frame:
  "reconcile items S = (r, S') \<Longrightarrow> k \<notin> set (old_keys items) \<Longrightarrow> k \<notin> set (new_keys items) \<Longrightarrow>
   S' k = S k"
proof (induction items arbitrary: S)
  case Nil
  then show ?case by simp
next
  case (Cons p items)
  obtain n o' where p: "p = (n, o')" by (cases p)
  from Cons.prems(2,3) have k: "k \<noteq> o'" "k \<noteq> n"
    "k \<notin> set (old_keys items)" "k \<notin> set (new_keys items)"
    by (auto simp: p old_keys_def new_keys_def)
  show ?case
  proof (cases "S o'")
    case None
    with Cons.prems(1) show ?thesis
      by (simp add: p reconcile_Cons del: reconcile.simps)
  next
    case (Some v)
    with Cons.prems(1) have "reconcile items ((S(o' := None))(n \<mapsto> v)) = (r, S')"
      by (simp add: p reconcile_Cons del: reconcile.simps)
    from Cons.IH [OF this k(3,4)] show ?thesis using k(1,2) by simp
  qed
qed

text \<open>
  C7: whatever the outcome of the rename cell (an exception or none), the other
  dictionaries of the notebook, \<open>ferc1_dbf_raw_dfs\<close> (the legacy set) and
  \<open>ferc1_transformed_dfs\<close>, are as before, and so is every entry of
  \<open>ferc1_xbrl_raw_dfs\<close> whose key is neither an old key nor a new key of the items.
\<close>

theorem rename_cell_frame:
  assumes "rename_cell items nb = (r, nb')"
  shows "ferc1_dbf_raw_dfs nb' = ferc1_dbf_raw_dfs nb
     \<and> ferc1_transformed_dfs nb' = ferc1_transformed_dfs nb
     \<and> (\<forall>k. k \<notin> set (old_keys items) \<and> k \<notin> set (new_keys items) \<longrightarrow>
           ferc1_xbrl_raw_dfs nb' k = ferc1_xbrl_raw_dfs nb k)"
proof -
  obtain d where run: "reconcile items (ferc1_xbrl_raw_dfs nb) = (r, d)"
    and nb': "nb' = nb\<lparr>ferc1_xbrl_raw_dfs := d\<rparr>"
    using assms by (auto simp: rename_cell_def split: prod.splits)
  show ?thesis
    using reconcile_frame [OF run] by (simp add: nb')
qed

text \<open>A rename of \<open>a\<close> to \<open>b\<close>: the legacy dictionary and the entry at \<open>e\<close> are
  untouched.\<close>

theorem rename_cell_frame_witness:
  "rename_cell [(''b'', ''a'')]
     \<lparr>ferc1_dbf_raw_dfs = [''a'' \<mapsto> (7::nat)], ferc1_xbrl_raw_dfs = [''a'' \<mapsto> 1, ''e'' \<mapsto> 3],
      ferc1_transformed_dfs = Map.empty\<rparr>
   = (None, \<lparr>ferc1_dbf_raw_dfs = [''a'' \<mapsto> 7], ferc1_xbrl_raw_dfs = [''b'' \<mapsto> 1, ''e'' \<mapsto> 3],
      ferc1_transformed_dfs = Map.empty\<rparr>)
   \<and> ferc1_dbf_raw_dfs \<lparr>ferc1_dbf_raw_dfs = [''a'' \<mapsto> (7::nat)],
        ferc1_xbrl_raw_dfs = [''b'' \<mapsto> 1, ''e'' \<mapsto> 3], ferc1_transformed_dfs = Map.empty\<rparr> = [''a'' \<mapsto> 7]
   \<and> [''b'' \<mapsto> (1::nat), ''e'' \<mapsto> 3] ''e'' = [''a'' \<mapsto> (1::nat), ''e'' \<mapsto> 3] ''e''"
proof -
  let ?nb = "\<lparr>ferc1_dbf_raw_dfs = [''a'' \<mapsto> (7::nat)], ferc1_xbrl_raw_dfs = [''a'' \<mapsto> 1, ''e'' \<mapsto> 3],
      ferc1_transformed_dfs = Map.empty\<rparr>"
  let ?nb' = "\<lparr>ferc1_dbf_raw_dfs = [''a'' \<mapsto> (7::nat)], ferc1_xbrl_raw_dfs = [''b'' \<mapsto> 1, ''e'' \<mapsto> 3],
      ferc1_transformed_dfs = Map.empty\<rparr>"
  have h: "rename_cell [(''b'', ''a'')] ?nb = (None, ?nb')"
    by (simp add: rename_cell_def dict_pop_def dict_setitem_def fun_eq_iff)
  from rename_cell_frame [OF h] have
    "ferc1_dbf_raw_dfs ?nb' = ferc1_dbf_raw_dfs ?nb"
    and "ferc1_xbrl_raw_dfs ?nb' ''e'' = ferc1_xbrl_raw_dfs ?nb ''e''"
    by (simp_all add: old_keys_def new_keys_def)
  with h show ?thesis by simp
qed

subsection \<open>The number of entries\<close>

text \<open>
  C10: let no old key and no new key be repeated in the items, every old key be
  present in \<open>S\<close> and every new key be absent from \<open>S\<close> (a dictionary has finitely
  many entries). Then the loop raises nothing and the
  dictionary it leaves has as many entries as \<open>S\<close>.
\<close>

theorem reconcile_card:
  assumes dold: "distinct (old_keys items)" and dnew: "distinct (new_keys items)"
    and pres: "set (old_keys items) \<subseteq> dom S"
    and absent: "set (new_keys items) \<inter> dom S = {}"
    and fin: "finite (dom S)"
  shows "\<exists>S'. reconcile items S = (None, S') \<and> card (dom S') = card (dom S)"
proof (intro exI conjI)
  have "set (old_keys items) \<inter> set (new_keys items) = {}"
    using pres absent by auto
  with dold dnew have dis: "distinct (old_keys items @ new_keys items)"
    by simp
  show "reconcile items S = (None, renamed items S)"
    using dis pres by (rule reconcile_renamed)
  have d: "dom (renamed items S) = (dom S - set (old_keys items)) \<union> set (new_keys items)"
    using pres by (rule dom_renamed)
  have disj: "(dom S - set (old_keys items)) \<inter> set (new_keys items) = {}"
    using absent by auto
  from dold dnew have "card (set (old_keys items)) = length (old_keys items)"
    and "card (set (new_keys items)) = length (new_keys items)"
    by (simp_all only: distinct_card)
  then have olds: "card (set (old_keys items)) = length items"
    and news: "card (set (new_keys items)) = length items"
    by (simp_all add: old_keys_def new_keys_def)
  have "card (dom (renamed items S)) = card (dom S - set (old_keys items)) + card (set (new_keys items))"
    unfolding d using fin disj by (simp add: card_Un_disjoint)
  also have "card (dom S - set (old_keys items)) = card (dom S) - card (set (old_keys items))"
    using pres by (simp add: card_Diff_subset)
  also have "card (set (old_keys items)) = length items"
    by (rule olds)
  also have "card (set (new_keys items)) = length items"
    by (rule news)
  also have "card (dom S) - length items + length items = card (dom S)"
  proof -
    have "card (set (old_keys items)) \<le> card (dom S)"
      using pres fin by (simp add: card_mono)
    then have "length items \<le> card (dom S)"
      by (simp only: olds)
    then show ?thesis by simp
  qed
  finally show "card (dom (renamed items S)) = card (dom S)" .
qed

text \<open>Two renames in a dictionary of three entries.\<close>

theorem reconcile_card_witness:
  "distinct (old_keys [(''b'', ''a''), (''d'', ''c'')])
   \<and> distinct (new_keys [(''b'', ''a''), (''d'', ''c'')])
   \<and> set (old_keys [(''b'', ''a''), (''d'', ''c'')]) \<subseteq> dom [''a'' \<mapsto> (1::nat), ''c'' \<mapsto> 2, ''e'' \<mapsto> 3]
   \<and> set (new_keys [(''b'', ''a''), (''d'', ''c'')]) \<inter> dom [''a'' \<mapsto> (1::nat), ''c'' \<mapsto> 2, ''e'' \<mapsto> 3] = {}
   \<and> finite (dom [''a'' \<mapsto> (1::nat), ''c'' \<mapsto> 2, ''e'' \<mapsto> 3])
   \<and> card (dom [''a'' \<mapsto> (1::nat), ''c'' \<mapsto> 2, ''e'' \<mapsto> 3]) = 3
   \<and> (\<exists>S'. reconcile [(''b'', ''a''), (''d'', ''c'')] [''a'' \<mapsto> (1::nat), ''c'' \<mapsto> 2, ''e'' \<mapsto> 3] = (None, S')
         \<and> card (dom S') = 3)"
proof -
  let ?R = "[(''b'', ''a''), (''d'', ''c'')]"
  let ?S = "[''a'' \<mapsto> (1::nat), ''c'' \<mapsto> 2, ''e'' \<mapsto> 3]"
  have h0: "distinct (old_keys ?R)" by (simp add: old_keys_def)
  have h1: "distinct (new_keys ?R)" by (simp add: new_keys_def)
  have h2: "set (old_keys ?R) \<subseteq> dom ?S" by (simp add: old_keys_def)
  have h3: "set (new_keys ?R) \<inter> dom ?S = {}" by (simp add: new_keys_def)
  have h4: "finite (dom ?S)" by simp
  have c: "card (dom ?S) = 3" by simp
  from reconcile_card [OF h0 h1 h2 h3 h4] c h0 h1 h2 h3 h4 show ?thesis by metis
qed

section \<open>Properties of the transform cell\<close>

lemma kwargs_raw_inputs: "kwargs (raw_inputs nb table kw) = kw"
  by (simp add: raw_inputs_def)



lemma raw_inputs_lookups:
  "raw_xbrl_instant (raw_inputs nb table kw) = ferc1_xbrl_raw_dfs nb (table @ ''_instant'')"
  "raw_xbrl_duration (raw_inputs nb table kw) = ferc1_xbrl_raw_dfs nb (table @ ''_duration'')"
  "raw_dbf (raw_inputs nb table kw) = ferc1_dbf_raw_dfs nb table"
  by (simp_all add: raw_inputs_def dict_get_def)

text \<open>The four ways a run of the cell can go, each with the calls made, the result of
  the cell and the log of the run.\<close>

lemma transform_cell_runs:
  obtains (construct_fuel_raises) e w1 where
      "construct FuelFerc1 ''fuel_ferc1'' w = (Inl e, w1)"
      "transform_cell construct execute nb w = (Inl e, w1)"
      "run_log construct execute nb w = [Constructed FuelFerc1 ''fuel_ferc1'' (Inl e)]"
  | (fuel_raises) fuel_trans w1 e w2 where
      "construct FuelFerc1 ''fuel_ferc1'' w = (Inr fuel_trans, w1)"
      "execute FuelFerc1 fuel_trans (raw_inputs nb ''fuel_ferc1'' Map.empty) w1 = (Inl e, w2)"
      "transform_cell construct execute nb w = (Inl e, w2)"
      "run_log construct execute nb w =
         [Constructed FuelFerc1 ''fuel_ferc1'' (Inr fuel_trans),
          Invoked FuelFerc1 fuel_trans (raw_inputs nb ''fuel_ferc1'' Map.empty),
          Finished FuelFerc1 (Inl e)]"
  | (construct_steam_raises) fuel_trans w1 fuel_df w2 e w3 where
      "construct FuelFerc1 ''fuel_ferc1'' w = (Inr fuel_trans, w1)"
      "execute FuelFerc1 fuel_trans (raw_inputs nb ''fuel_ferc1'' Map.empty) w1 = (Inr fuel_df, w2)"
      "construct PlantsSteamFerc1 ''plants_steam_ferc1'' w2 = (Inl e, w3)"
      "transform_cell construct execute nb w = (Inl e, w3)"
      "run_log construct execute nb w =
         [Constructed FuelFerc1 ''fuel_ferc1'' (Inr fuel_trans),
          Invoked FuelFerc1 fuel_trans (raw_inputs nb ''fuel_ferc1'' Map.empty),
          Finished FuelFerc1 (Inr fuel_df),
          Constructed PlantsSteamFerc1 ''plants_steam_ferc1'' (Inl e)]"
  | (steam_invoked) fuel_trans w1 fuel_df w2 steam_trans w3 r w4 where
      "construct FuelFerc1 ''fuel_ferc1'' w = (Inr fuel_trans, w1)"
      "execute FuelFerc1 fuel_trans (raw_inputs nb ''fuel_ferc1'' Map.empty) w1 = (Inr fuel_df, w2)"
      "construct PlantsSteamFerc1 ''plants_steam_ferc1'' w2 = (Inr steam_trans, w3)"
      "execute PlantsSteamFerc1 steam_trans
         (raw_inputs nb ''plants_steam_ferc1'' [''transformed_fuel'' \<mapsto> fuel_df]) w3 = (r, w4)"
      "transform_cell construct execute nb w =
         (case r of Inl e \<Rightarrow> Inl e | Inr steam_df \<Rightarrow> Inr (fuel_df, steam_df), w4)"
      "run_log construct execute nb w =
         [Constructed FuelFerc1 ''fuel_ferc1'' (Inr fuel_trans),
          Invoked FuelFerc1 fuel_trans (raw_inputs nb ''fuel_ferc1'' Map.empty),
          Finished FuelFerc1 (Inr fuel_df),
          Constructed PlantsSteamFerc1 ''plants_steam_ferc1'' (Inr steam_trans),
          Invoked PlantsSteamFerc1 steam_trans
            (raw_inputs nb ''plants_steam_ferc1'' [''transformed_fuel'' \<mapsto> fuel_df]),
          Finished PlantsSteamFerc1 r]"
proof -
  obtain r1 w1 where c1: "construct FuelFerc1 ''fuel_ferc1'' w = (r1, w1)"
    by (cases "construct FuelFerc1 ''fuel_ferc1'' w")
  show ?thesis
  proof (cases r1)
    case (Inl e)
    with c1 show ?thesis
      by (intro construct_fuel_raises [of e w1])
        (simp_all add: Let_def run_log_def transform_cell_def traced_construct_def)
  next
    case r1: (Inr fuel_trans)
    obtain r2 w2 where
      x1: "execute FuelFerc1 fuel_trans (raw_inputs nb ''fuel_ferc1'' Map.empty) w1 = (r2, w2)"
      by (cases "execute FuelFerc1 fuel_trans (raw_inputs nb ''fuel_ferc1'' Map.empty) w1")
    show ?thesis
    proof (cases r2)
      case (Inl e)
      with c1 r1 x1 show ?thesis
        by (intro fuel_raises [of fuel_trans w1 e w2])
          (simp_all add: Let_def run_log_def transform_cell_def traced_construct_def
            traced_execute_def)
    next
      case r2: (Inr fuel_df)
      obtain r3 w3 where c2: "construct PlantsSteamFerc1 ''plants_steam_ferc1'' w2 = (r3, w3)"
        by (cases "construct PlantsSteamFerc1 ''plants_steam_ferc1'' w2")
      show ?thesis
      proof (cases r3)
        case (Inl e)
        with c1 r1 x1 r2 c2 show ?thesis
          by (intro construct_steam_raises [of fuel_trans w1 fuel_df w2 e w3])
            (simp_all add: Let_def run_log_def transform_cell_def traced_construct_def
              traced_execute_def)
      next
        case r3: (Inr steam_trans)
        obtain r4 w4 where x2: "execute PlantsSteamFerc1 steam_trans
           (raw_inputs nb ''plants_steam_ferc1'' [''transformed_fuel'' \<mapsto> fuel_df]) w3 = (r4, w4)"
          by (cases "execute PlantsSteamFerc1 steam_trans
           (raw_inputs nb ''plants_steam_ferc1'' [''transformed_fuel'' \<mapsto> fuel_df]) w3")
        from c1 r1 x1 r2 c2 r3 x2 show ?thesis
          by (intro steam_invoked [of fuel_trans w1 fuel_df w2 steam_trans w3 r4 w4])
            (simp_all add: Let_def run_log_def transform_cell_def traced_construct_def
              traced_execute_def split: sum.splits)
      qed
    qed
  qed
qed

text \<open>The sample run, and its four calls.\<close>

lemma sample_run_log:
  "run_log sample_construct sample_execute sample_notebook 0 =
     [Constructed FuelFerc1 ''fuel_ferc1'' (Inr ''fuel_ferc1''),
      Invoked FuelFerc1 ''fuel_ferc1''
        \<lparr>raw_dbf = Some 7, raw_xbrl_instant = None, raw_xbrl_duration = None,
         kwargs = Map.empty\<rparr>,
      Finished FuelFerc1 (Inr 10),
      Constructed PlantsSteamFerc1 ''plants_steam_ferc1'' (Inr ''plants_steam_ferc1''),
      Invoked PlantsSteamFerc1 ''plants_steam_ferc1''
        \<lparr>raw_dbf = None, raw_xbrl_instant = None, raw_xbrl_duration = Some 1,
         kwargs = [''transformed_fuel'' \<mapsto> 10]\<rparr>,
      Finished PlantsSteamFerc1 (Inr 11)]"
  by (simp add: run_log_def transform_cell_def traced_construct_def traced_execute_def
      sample_construct_def sample_execute_def sample_notebook_def raw_inputs_def dict_get_def
      Let_def)



lemma sample_calls:
  "sample_construct FuelFerc1 ''fuel_ferc1'' 0 = (Inr ''fuel_ferc1'', 1)"
  "sample_execute FuelFerc1 ''fuel_ferc1'' (raw_inputs sample_notebook ''fuel_ferc1'' Map.empty) 1
     = (Inr 10, 2)"
  "sample_construct PlantsSteamFerc1 ''plants_steam_ferc1'' 2 = (Inr ''plants_steam_ferc1'', 3)"
  "sample_execute PlantsSteamFerc1 ''plants_steam_ferc1''
     (raw_inputs sample_notebook ''plants_steam_ferc1'' [''transformed_fuel'' \<mapsto> 10]) 3
     = (Inr 11, 4)"
  by (simp_all add: sample_construct_def sample_execute_def sample_notebook_def raw_inputs_def
      dict_get_def)

text \<open>
  C8: in every run of the cell, whenever the plant transform (\<open>execute\<close> of
  \<open>PlantsSteamFerc1\<close>) is invoked, the fuel transform (\<open>execute\<close> of \<open>FuelFerc1\<close>) has
  been invoked and has finished earlier in the run with a result, and that result is the
  \<open>transformed_fuel\<close> argument of the plant transform. And the plant transform is
  invoked, in the state that the calls before it left and with the fuel result, as soon
  as the fuel instance was built, the fuel transform returned and the plant instance
  was built: the result of the cell is then what that invocation gives. (A run that an
  exception ends earlier never invokes the plant transform.)
\<close>

theorem fuel_before_plants:
  "(\<forall>j self args.
      j < length (run_log construct execute nb w)
      \<and> run_log construct execute nb w ! j = Invoked PlantsSteamFerc1 self args \<longrightarrow>
      (\<exists>k i fuel_trans fuel_args fuel_df w1 w2.
         k < i \<and> i < j
         \<and> run_log construct execute nb w ! k = Invoked FuelFerc1 fuel_trans fuel_args
         \<and> run_log construct execute nb w ! i = Finished FuelFerc1 (Inr fuel_df)
         \<and> execute FuelFerc1 fuel_trans fuel_args w1 = (Inr fuel_df, w2)
         \<and> kwargs args ''transformed_fuel'' = Some fuel_df))
   \<and> (\<forall>fuel_trans w1 fuel_df w2 steam_trans w3.
        construct FuelFerc1 ''fuel_ferc1'' w = (Inr fuel_trans, w1)
        \<and> execute FuelFerc1 fuel_trans (raw_inputs nb ''fuel_ferc1'' Map.empty) w1 = (Inr fuel_df, w2)
        \<and> construct PlantsSteamFerc1 ''plants_steam_ferc1'' w2 = (Inr steam_trans, w3) \<longrightarrow>
        transform_cell construct execute nb w =
          (case execute PlantsSteamFerc1 steam_trans
                  (raw_inputs nb ''plants_steam_ferc1'' [''transformed_fuel'' \<mapsto> fuel_df]) w3 of
             (Inl e, w4) \<Rightarrow> (Inl e, w4)
           | (Inr steam_df, w4) \<Rightarrow> (Inr (fuel_df, steam_df), w4))
        \<and> 4 < length (run_log construct execute nb w)
        \<and> run_log construct execute nb w ! 4 =
            Invoked PlantsSteamFerc1 steam_trans
              (raw_inputs nb ''plants_steam_ferc1'' [''transformed_fuel'' \<mapsto> fuel_df]))"
  (is "?order \<and> ?invoked")
proof (cases rule: transform_cell_runs
    [where construct = construct and execute = execute and nb = nb and w = w])
  case (construct_fuel_raises e w1)
  have ?order
    unfolding construct_fuel_raises(3) by (auto simp: less_Suc_eq numeral_eq_Suc nth_Cons')
  moreover have ?invoked using construct_fuel_raises(1) by simp
  ultimately show ?thesis ..
next
  case (fuel_raises fuel_trans w1 e w2)
  have ?order
    unfolding fuel_raises(4) by (auto simp: less_Suc_eq numeral_eq_Suc nth_Cons')
  moreover have ?invoked using fuel_raises(1,2) by simp
  ultimately show ?thesis ..
next
  case (construct_steam_raises fuel_trans w1 fuel_df w2 e w3)
  have ?order
    unfolding construct_steam_raises(5) by (auto simp: less_Suc_eq numeral_eq_Suc nth_Cons')
  moreover have ?invoked using construct_steam_raises(1,2,3) by simp
  ultimately show ?thesis ..
next
  case (steam_invoked fuel_trans w1 fuel_df w2 steam_trans w3 r w4)
  let ?log = "run_log construct execute nb w"
  have ?order
  proof (intro allI impI)
    fix j self args
    assume "j < length ?log \<and> ?log ! j = Invoked PlantsSteamFerc1 self args"
    then have j: "j = 4"
      and a: "args = raw_inputs nb ''plants_steam_ferc1'' [''transformed_fuel'' \<mapsto> fuel_df]"
      unfolding steam_invoked(6) by (auto simp: less_Suc_eq numeral_eq_Suc nth_Cons')
    have "(1::nat) < 2 \<and> (2::nat) < j
         \<and> ?log ! 1 = Invoked FuelFerc1 fuel_trans (raw_inputs nb ''fuel_ferc1'' Map.empty)
         \<and> ?log ! 2 = Finished FuelFerc1 (Inr fuel_df)
         \<and> execute FuelFerc1 fuel_trans (raw_inputs nb ''fuel_ferc1'' Map.empty) w1 = (Inr fuel_df, w2)
         \<and> kwargs args ''transformed_fuel'' = Some fuel_df"
      unfolding steam_invoked(6) j a by (simp add: steam_invoked(2) kwargs_raw_inputs)
    then show "\<exists>k i fuel_trans fuel_args fuel_df w1 w2.
         k < i \<and> i < j
         \<and> ?log ! k = Invoked FuelFerc1 fuel_trans fuel_args
         \<and> ?log ! i = Finished FuelFerc1 (Inr fuel_df)
         \<and> execute FuelFerc1 fuel_trans fuel_args w1 = (Inr fuel_df, w2)
         \<and> kwargs args ''transformed_fuel'' = Some fuel_df"
      by blast
  qed
  moreover have ?invoked
    using steam_invoked(1,2,3,4) unfolding steam_invoked(5,6)
    by (auto split: sum.splits)
  ultimately show ?thesis ..
qed

text \<open>The sample run: the plant transform is the fifth event, after the fuel
  transform finished with 10.\<close>

theorem fuel_before_plants_witness:
  "4 < length (run_log sample_construct sample_execute sample_notebook 0)
   \<and> run_log sample_construct sample_execute sample_notebook 0 ! 4 =
       Invoked PlantsSteamFerc1 ''plants_steam_ferc1''
         \<lparr>raw_dbf = None, raw_xbrl_instant = None, raw_xbrl_duration = Some 1,
          kwargs = [''transformed_fuel'' \<mapsto> 10]\<rparr>
   \<and> (\<exists>k i fuel_trans fuel_args.
         k < i \<and> i < 4
         \<and> run_log sample_construct sample_execute sample_notebook 0 ! k =
             Invoked FuelFerc1 fuel_trans fuel_args
         \<and> run_log sample_construct sample_execute sample_notebook 0 ! i =
             Finished FuelFerc1 (Inr 10))
   \<and> sample_construct FuelFerc1 ''fuel_ferc1'' 0 = (Inr ''fuel_ferc1'', 1)
   \<and> sample_execute FuelFerc1 ''fuel_ferc1''
        (raw_inputs sample_notebook ''fuel_ferc1'' Map.empty) 1 = (Inr 10, 2)
   \<and> sample_construct PlantsSteamFerc1 ''plants_steam_ferc1'' 2 = (Inr ''plants_steam_ferc1'', 3)
   \<and> transform_cell sample_construct sample_execute sample_notebook 0 = (Inr (10, 11), 4)"
proof -
  let ?log = "run_log sample_construct sample_execute sample_notebook 0"
  let ?a = "\<lparr>raw_dbf = None, raw_xbrl_instant = None, raw_xbrl_duration = Some (1::nat),
          kwargs = [''transformed_fuel'' \<mapsto> (10::nat)]\<rparr>"
  note t = fuel_before_plants [of sample_construct sample_execute sample_notebook 0]
  have h1: "4 < length ?log" and h2: "?log ! 4 = Invoked PlantsSteamFerc1 ''plants_steam_ferc1'' ?a"
    by (simp_all add: sample_run_log)
  from t h1 h2 obtain k i fuel_trans fuel_args fuel_df where
    o: "k < i" "i < 4" "?log ! k = Invoked FuelFerc1 fuel_trans fuel_args"
      "?log ! i = Finished FuelFerc1 (Inr fuel_df)"
      "kwargs ?a ''transformed_fuel'' = Some fuel_df"
    by blast
  from o(5) have "fuel_df = 10" by simp
  with o have order: "\<exists>k i fuel_trans fuel_args.
         k < i \<and> i < 4 \<and> ?log ! k = Invoked FuelFerc1 fuel_trans fuel_args
         \<and> ?log ! i = Finished FuelFerc1 (Inr 10)"
    by blast
  from t sample_calls(1,2,3)
  have "transform_cell sample_construct sample_execute sample_notebook 0 =
          (case sample_execute PlantsSteamFerc1 ''plants_steam_ferc1''
                  (raw_inputs sample_notebook ''plants_steam_ferc1'' [''transformed_fuel'' \<mapsto> 10]) 3 of
             (Inl e, w4) \<Rightarrow> (Inl e, w4)
           | (Inr steam_df, w4) \<Rightarrow> (Inr (10, steam_df), w4))"
    by blast
  then have res: "transform_cell sample_construct sample_execute sample_notebook 0 = (Inr (10, 11), 4)"
    by (simp add: sample_calls(4))
  from h1 h2 order sample_calls(1,2,3) res show ?thesis by blast
qed

text \<open>
  C9: in every run of the cell, every invocation of a handler's \<open>execute\<close> gets as raw
  inputs the three lookups for its table; where the key \<open>table_instant\<close> (or
  \<open>table_duration\<close>) is absent from \<open>ferc1_xbrl_raw_dfs\<close>, that raw input is None. The
  lookups do not stop the run: once the fuel instance is built, the fuel handler is
  invoked with the inputs so looked up, and once the plant instance is built, so is the
  plant handler; the log records the invocation and what \<open>execute\<close> gave on exactly
  those arguments. An exception that ends the run is the outcome of a call of
  \<open>construct\<close> or of \<open>execute\<close>, never of a lookup.
\<close>

theorem lookups_total:
  "(\<forall>j cls self args.
      j < length (run_log construct execute nb w)
      \<and> run_log construct execute nb w ! j = Invoked cls self args \<longrightarrow>
      (\<exists>table.
         (cls = FuelFerc1 \<and> table = ''fuel_ferc1''
          \<or> cls = PlantsSteamFerc1 \<and> table = ''plants_steam_ferc1'')
         \<and> args = raw_inputs nb table (kwargs args)
         \<and> (table @ ''_instant'' \<notin> dom (ferc1_xbrl_raw_dfs nb) \<longrightarrow> raw_xbrl_instant args = None)
         \<and> (table @ ''_duration'' \<notin> dom (ferc1_xbrl_raw_dfs nb) \<longrightarrow> raw_xbrl_duration args = None)))
   \<and> (\<forall>fuel_trans w1.
        construct FuelFerc1 ''fuel_ferc1'' w = (Inr fuel_trans, w1) \<longrightarrow>
        2 < length (run_log construct execute nb w)
        \<and> run_log construct execute nb w ! 1 =
            Invoked FuelFerc1 fuel_trans (raw_inputs nb ''fuel_ferc1'' Map.empty)
        \<and> run_log construct execute nb w ! 2 =
            Finished FuelFerc1
              (fst (execute FuelFerc1 fuel_trans (raw_inputs nb ''fuel_ferc1'' Map.empty) w1)))
   \<and> (\<forall>fuel_trans w1 fuel_df w2 steam_trans w3.
        construct FuelFerc1 ''fuel_ferc1'' w = (Inr fuel_trans, w1)
        \<and> execute FuelFerc1 fuel_trans (raw_inputs nb ''fuel_ferc1'' Map.empty) w1 = (Inr fuel_df, w2)
        \<and> construct PlantsSteamFerc1 ''plants_steam_ferc1'' w2 = (Inr steam_trans, w3) \<longrightarrow>
        5 < length (run_log construct execute nb w)
        \<and> run_log construct execute nb w ! 4 =
            Invoked PlantsSteamFerc1 steam_trans
              (raw_inputs nb ''plants_steam_ferc1'' [''transformed_fuel'' \<mapsto> fuel_df])
        \<and> run_log construct execute nb w ! 5 =
            Finished PlantsSteamFerc1
              (fst (execute PlantsSteamFerc1 steam_trans
                 (raw_inputs nb ''plants_steam_ferc1'' [''transformed_fuel'' \<mapsto> fuel_df]) w3)))
   \<and> (\<forall>e w'.
        transform_cell construct execute nb w = (Inl e, w') \<longrightarrow>
        (\<exists>cls table w0. construct cls table w0 = (Inl e, w'))
        \<or> (\<exists>cls self args w0. execute cls self args w0 = (Inl e, w')))"
  (is "?args \<and> ?fuel \<and> ?steam \<and> ?exn")
proof -
  have absent: "table @ sfx \<notin> dom (ferc1_xbrl_raw_dfs nb) \<Longrightarrow>
      ferc1_xbrl_raw_dfs nb (table @ sfx) = None" for table sfx
    by (simp add: dom_def)
  have inputs: "raw_inputs nb table kw = raw_inputs nb table (kwargs (raw_inputs nb table kw))
      \<and> (table @ ''_instant'' \<notin> dom (ferc1_xbrl_raw_dfs nb) \<longrightarrow>
           raw_xbrl_instant (raw_inputs nb table kw) = None)
      \<and> (table @ ''_duration'' \<notin> dom (ferc1_xbrl_raw_dfs nb) \<longrightarrow>
           raw_xbrl_duration (raw_inputs nb table kw) = None)" for table kw
    by (simp add: kwargs_raw_inputs raw_inputs_lookups absent)
  show ?thesis
  proof (cases rule: transform_cell_runs
      [where construct = construct and execute = execute and nb = nb and w = w])
    case (construct_fuel_raises e w1)
    have ?args
      unfolding construct_fuel_raises(3) by (auto simp: less_Suc_eq numeral_eq_Suc nth_Cons')
    moreover have ?fuel and ?steam using construct_fuel_raises(1) by simp_all
    moreover have ?exn using construct_fuel_raises(1,2) by auto
    ultimately show ?thesis by blast
  next
    case (fuel_raises fuel_trans w1 e w2)
    have ?args
    proof (intro allI impI)
      fix j cls self args
      assume "j < length (run_log construct execute nb w)
        \<and> run_log construct execute nb w ! j = Invoked cls self args"
      then have "cls = FuelFerc1" and "args = raw_inputs nb ''fuel_ferc1'' Map.empty"
        unfolding fuel_raises(4) by (auto simp: less_Suc_eq numeral_eq_Suc nth_Cons')
      with inputs [of "''fuel_ferc1''" Map.empty]
      show "\<exists>table.
         (cls = FuelFerc1 \<and> table = ''fuel_ferc1''
          \<or> cls = PlantsSteamFerc1 \<and> table = ''plants_steam_ferc1'')
         \<and> args = raw_inputs nb table (kwargs args)
         \<and> (table @ ''_instant'' \<notin> dom (ferc1_xbrl_raw_dfs nb) \<longrightarrow> raw_xbrl_instant args = None)
         \<and> (table @ ''_duration'' \<notin> dom (ferc1_xbrl_raw_dfs nb) \<longrightarrow> raw_xbrl_duration args = None)"
        by blast
    qed
    moreover have ?fuel
      using fuel_raises(1,2) unfolding fuel_raises(4) by auto
    moreover have ?steam using fuel_raises(1,2) by simp
    moreover have ?exn using fuel_raises(2,3) by auto
    ultimately show ?thesis by blast
  next
    case (construct_steam_raises fuel_trans w1 fuel_df w2 e w3)
    have ?args
    proof (intro allI impI)
      fix j cls self args
      assume "j < length (run_log construct execute nb w)
        \<and> run_log construct execute nb w ! j = Invoked cls self args"
      then have "cls = FuelFerc1" and "args = raw_inputs nb ''fuel_ferc1'' Map.empty"
        unfolding construct_steam_raises(5) by (auto simp: less_Suc_eq numeral_eq_Suc nth_Cons')
      with inputs [of "''fuel_ferc1''" Map.empty]
      show "\<exists>table.
         (cls = FuelFerc1 \<and> table = ''fuel_ferc1''
          \<or> cls = PlantsSteamFerc1 \<and> table = ''plants_steam_ferc1'')
         \<and> args = raw_inputs nb table (kwargs args)
         \<and> (table @ ''_instant'' \<notin> dom (ferc1_xbrl_raw_dfs nb) \<longrightarrow> raw_xbrl_instant args = None)
         \<and> (table @ ''_duration'' \<notin> dom (ferc1_xbrl_raw_dfs nb) \<longrightarrow> raw_xbrl_duration args = None)"
        by blast
    qed
    moreover have ?fuel
      using construct_steam_raises(1,2) unfolding construct_steam_raises(5) by auto
    moreover have ?steam using construct_steam_raises(1,2,3) by simp
    moreover have ?exn using construct_steam_raises(3,4) by auto
    ultimately show ?thesis by blast
  next
    case (steam_invoked fuel_trans w1 fuel_df w2 steam_trans w3 r w4)
    have ?args
    proof (intro allI impI)
      fix j cls self args
      assume "j < length (run_log construct execute nb w)
        \<and> run_log construct execute nb w ! j = Invoked cls self args"
      then consider "cls = FuelFerc1" "args = raw_inputs nb ''fuel_ferc1'' Map.empty"
        | "cls = PlantsSteamFerc1"
          "args = raw_inputs nb ''plants_steam_ferc1'' [''transformed_fuel'' \<mapsto> fuel_df]"
        unfolding steam_invoked(6) by (auto simp: less_Suc_eq numeral_eq_Suc nth_Cons')
      then show "\<exists>table.
         (cls = FuelFerc1 \<and> table = ''fuel_ferc1''
          \<or> cls = PlantsSteamFerc1 \<and> table = ''plants_steam_ferc1'')
         \<and> args = raw_inputs nb table (kwargs args)
         \<and> (table @ ''_instant'' \<notin> dom (ferc1_xbrl_raw_dfs nb) \<longrightarrow> raw_xbrl_instant args = None)
         \<and> (table @ ''_duration'' \<notin> dom (ferc1_xbrl_raw_dfs nb) \<longrightarrow> raw_xbrl_duration args = None)"
      proof cases
        case 1
        with inputs [of "''fuel_ferc1''" Map.empty] show ?thesis by blast
      next
        case 2
        with inputs [of "''plants_steam_ferc1''" "[''transformed_fuel'' \<mapsto> fuel_df]"]
        show ?thesis by blast
      qed
    qed
    moreover have ?fuel
      using steam_invoked(1,2) unfolding steam_invoked(6) by auto
    moreover have ?steam
      using steam_invoked(1,2,3,4) unfolding steam_invoked(6) by auto
    moreover have ?exn
      using steam_invoked(4) unfolding steam_invoked(5) by (auto split: sum.splits)
    ultimately show ?thesis by blast
  qed
qed

text \<open>The sample run, where only \<open>plants_steam_ferc1_duration\<close> is present among the
  variant keys, and the run on the empty notebook, which the fuel handler ends with an
  exception.\<close>

theorem lookups_total_witness:
  "''fuel_ferc1_instant'' \<notin> dom (ferc1_xbrl_raw_dfs sample_notebook)
   \<and> ''fuel_ferc1_duration'' \<notin> dom (ferc1_xbrl_raw_dfs sample_notebook)
   \<and> ''plants_steam_ferc1_instant'' \<notin> dom (ferc1_xbrl_raw_dfs sample_notebook)
   \<and> sample_construct FuelFerc1 ''fuel_ferc1'' 0 = (Inr ''fuel_ferc1'', 1)
   \<and> run_log sample_construct sample_execute sample_notebook 0 ! 1 =
       Invoked FuelFerc1 ''fuel_ferc1''
         \<lparr>raw_dbf = Some 7, raw_xbrl_instant = None, raw_xbrl_duration = None,
          kwargs = Map.empty\<rparr>
   \<and> run_log sample_construct sample_execute sample_notebook 0 ! 2 = Finished FuelFerc1 (Inr 10)
   \<and> sample_execute FuelFerc1 ''fuel_ferc1''
        (raw_inputs sample_notebook ''fuel_ferc1'' Map.empty) 1 = (Inr 10, 2)
   \<and> sample_construct PlantsSteamFerc1 ''plants_steam_ferc1'' 2 = (Inr ''plants_steam_ferc1'', 3)
   \<and> run_log sample_construct sample_execute sample_notebook 0 ! 4 =
       Invoked PlantsSteamFerc1 ''plants_steam_ferc1''
         \<lparr>raw_dbf = None, raw_xbrl_instant = None, raw_xbrl_duration = Some 1,
          kwargs = [''transformed_fuel'' \<mapsto> 10]\<rparr>
   \<and> run_log sample_construct sample_execute sample_notebook 0 ! 5 =
       Finished PlantsSteamFerc1 (Inr 11)
   \<and> transform_cell sample_construct sample_execute empty_notebook 0 = (Inl ''no raw input'', 2)
   \<and> (\<exists>cls self args w0. sample_execute cls self args w0 = (Inl ''no raw input'', 2))"
proof -
  let ?log = "run_log sample_construct sample_execute sample_notebook 0"
  note t = lookups_total [of sample_construct sample_execute sample_notebook 0]
  note t' = lookups_total [of sample_construct sample_execute empty_notebook 0]
  have absent: "''fuel_ferc1_instant'' \<notin> dom (ferc1_xbrl_raw_dfs sample_notebook)"
    "''fuel_ferc1_duration'' \<notin> dom (ferc1_xbrl_raw_dfs sample_notebook)"
    "''plants_steam_ferc1_instant'' \<notin> dom (ferc1_xbrl_raw_dfs sample_notebook)"
    by (simp_all add: sample_notebook_def)
  have fuel_args: "raw_inputs sample_notebook ''fuel_ferc1'' Map.empty =
      \<lparr>raw_dbf = Some 7, raw_xbrl_instant = None, raw_xbrl_duration = None, kwargs = Map.empty\<rparr>"
    by (simp add: raw_inputs_def dict_get_def sample_notebook_def)
  have steam_args: "raw_inputs sample_notebook ''plants_steam_ferc1'' [''transformed_fuel'' \<mapsto> 10] =
      \<lparr>raw_dbf = None, raw_xbrl_instant = None, raw_xbrl_duration = Some 1,
       kwargs = [''transformed_fuel'' \<mapsto> 10]\<rparr>"
    by (simp add: raw_inputs_def dict_get_def sample_notebook_def)
  have fuel_out: "fst (sample_execute FuelFerc1 ''fuel_ferc1''
           (raw_inputs sample_notebook ''fuel_ferc1'' Map.empty) 1) = Inr 10"
    using sample_calls(2) by simp
  have steam_out: "fst (sample_execute PlantsSteamFerc1 ''plants_steam_ferc1''
           (raw_inputs sample_notebook ''plants_steam_ferc1'' [''transformed_fuel'' \<mapsto> 10]) 3)
         = Inr 11"
    using sample_calls(4) by simp
  from t sample_calls(1)
  have "?log ! 1 = Invoked FuelFerc1 ''fuel_ferc1'' (raw_inputs sample_notebook ''fuel_ferc1'' Map.empty)"
    and "?log ! 2 = Finished FuelFerc1 (fst (sample_execute FuelFerc1 ''fuel_ferc1''
           (raw_inputs sample_notebook ''fuel_ferc1'' Map.empty) 1))"
    by blast+
  then have fuel: "?log ! 1 = Invoked FuelFerc1 ''fuel_ferc1''
         \<lparr>raw_dbf = Some 7, raw_xbrl_instant = None, raw_xbrl_duration = None,
          kwargs = Map.empty\<rparr>"
    "?log ! 2 = Finished FuelFerc1 (Inr 10)"
    by (simp_all only: fuel_out) (simp only: fuel_args)
  from t sample_calls(1,2,3)
  have "?log ! 4 = Invoked PlantsSteamFerc1 ''plants_steam_ferc1''
           (raw_inputs sample_notebook ''plants_steam_ferc1'' [''transformed_fuel'' \<mapsto> 10])"
    and "?log ! 5 = Finished PlantsSteamFerc1 (fst (sample_execute PlantsSteamFerc1
           ''plants_steam_ferc1''
           (raw_inputs sample_notebook ''plants_steam_ferc1'' [''transformed_fuel'' \<mapsto> 10]) 3))"
    by blast+
  then have steam: "?log ! 4 = Invoked PlantsSteamFerc1 ''plants_steam_ferc1''
         \<lparr>raw_dbf = None, raw_xbrl_instant = None, raw_xbrl_duration = Some 1,
          kwargs = [''transformed_fuel'' \<mapsto> 10]\<rparr>"
    "?log ! 5 = Finished PlantsSteamFerc1 (Inr 11)"
    by (simp_all only: steam_out) (simp only: steam_args)
  have raised: "transform_cell sample_construct sample_execute empty_notebook 0 =
      (Inl ''no raw input'', 2)"
    by (simp add: transform_cell_def sample_construct_def sample_execute_def empty_notebook_def
        raw_inputs_def dict_get_def Let_def)
  have "\<nexists>cls table w0. sample_construct cls table w0 = (Inl ''no raw input'', 2)"
    by (simp add: sample_construct_def)
  with t' raised
  have by_execute: "\<exists>cls self args w0. sample_execute cls self args w0 = (Inl ''no raw input'', 2)"
    by blast
  from absent sample_calls(1,2,3) fuel steam raised by_execute show ?thesis by blast
qed

section \<open>Properties of the dispatcher\<close>

lemma find_missing:
  assumes "dep \<in> set deps" and "dependency_results dep = None"
  shows "\<exists>missing. find (\<lambda>dep. dependency_results dep = None) deps = Some missing
     \<and> missing \<in> set deps \<and> dependency_results missing = None"
proof (cases "find (\<lambda>dep. dependency_results dep = None) deps")
  case None
  with assms show ?thesis by (auto simp: find_None_iff)
next
  case (Some missing)
  then show ?thesis by (auto simp: find_Some_iff)
qed

text \<open>
  C4: for every registry, dispatching \<open>fuel_ferc1\<close>, whose handler declares no
  dependency, with both raw inputs present and no dependency results succeeds and
  returns the handler's table; dispatching \<open>plants_steam_ferc1\<close>, whose handler declares
  \<open>transformed_fuel\<close>, without a \<open>transformed_fuel\<close> dependency result fails with
  \<open>MissingDependencyError\<close>; and in general, for every table whose handler declares a
  dependency that is not supplied, dispatch fails with \<open>MissingDependencyError\<close>, naming
  a declared dependency that is not supplied.
\<close>

theorem dispatch_missing_dependency:
  "(\<forall>h raw_instant raw_duration.
      registry ''fuel_ferc1'' = Some h \<and> declared_dependencies h = [] \<longrightarrow>
      dispatch registry ''fuel_ferc1'' (Some raw_instant) (Some raw_duration) Map.empty =
        Some (Inr (produce h (Some raw_instant) (Some raw_duration) Map.empty)))
   \<and> (\<forall>h.
        registry ''plants_steam_ferc1'' = Some h
        \<and> ''transformed_fuel'' \<in> set (declared_dependencies h)
        \<and> dependency_results ''transformed_fuel'' = None \<longrightarrow>
        (\<exists>missing. dispatch registry ''plants_steam_ferc1'' instant duration dependency_results =
           Some (Inl (MissingDependencyError missing))))
   \<and> (\<forall>table_name h dep.
        registry table_name = Some h \<and> dep \<in> set (declared_dependencies h)
        \<and> dependency_results dep = None \<longrightarrow>
        (\<exists>missing. dispatch registry table_name instant duration dependency_results =
           Some (Inl (MissingDependencyError missing))
           \<and> missing \<in> set (declared_dependencies h) \<and> dependency_results missing = None))"
  (is "?fuel \<and> ?steam \<and> ?general")
proof -
  have general: ?general
  proof (intro allI impI)
    fix table_name h dep
    assume a: "registry table_name = Some h \<and> dep \<in> set (declared_dependencies h)
        \<and> dependency_results dep = None"
    then have "dep \<in> set (declared_dependencies h)" and "dependency_results dep = None"
      by simp_all
    from find_missing [of dep "declared_dependencies h" dependency_results, OF this]
    obtain missing where
      "find (\<lambda>dep. dependency_results dep = None) (declared_dependencies h) = Some missing"
      "missing \<in> set (declared_dependencies h)" "dependency_results missing = None"
      by blast
    with a show "\<exists>missing. dispatch registry table_name instant duration dependency_results =
           Some (Inl (MissingDependencyError missing))
           \<and> missing \<in> set (declared_dependencies h) \<and> dependency_results missing = None"
      by (simp add: dispatch_def)
  qed
  have ?fuel by (simp add: dispatch_def)
  moreover from general have ?steam by blast
  ultimately show ?thesis using general by blast
qed

text \<open>The sample registry: \<open>fuel_ferc1\<close> succeeds, \<open>plants_steam_ferc1\<close> fails, and the
  handler with two dependencies fails when only the first is supplied.\<close>

theorem dispatch_missing_dependency_witness:
  "sample_registry ''fuel_ferc1'' = Some \<lparr>declared_dependencies = [], produce = \<lambda>i d deps. 0\<rparr>
   \<and> dispatch sample_registry ''fuel_ferc1'' (Some 1) (Some 2) Map.empty = Some (Inr 0)
   \<and> ''transformed_fuel'' \<in> set [''transformed_fuel'']
   \<and> (Map.empty :: string \<rightharpoonup> nat) ''transformed_fuel'' = None
   \<and> dispatch sample_registry ''plants_steam_ferc1'' (Some 1) (Some 2) Map.empty =
       Some (Inl (MissingDependencyError ''transformed_fuel''))
   \<and> ''q'' \<in> set [''p'', ''q''] \<and> [''p'' \<mapsto> (5::nat)] ''q'' = None
   \<and> dispatch sample_registry ''two_deps'' None None [''p'' \<mapsto> 5] =
       Some (Inl (MissingDependencyError ''q''))"
proof -
  let ?fuel = "\<lparr>declared_dependencies = [], produce = \<lambda>i d (deps :: string \<rightharpoonup> nat). 0::nat\<rparr>"
  let ?steam = "\<lparr>declared_dependencies = [''transformed_fuel''],
      produce = \<lambda>i d (deps :: string \<rightharpoonup> nat). 1::nat\<rparr>"
  let ?two = "\<lparr>declared_dependencies = [''p'', ''q''],
      produce = \<lambda>i d (deps :: string \<rightharpoonup> nat). 2::nat\<rparr>"
  have r: "sample_registry ''fuel_ferc1'' = Some ?fuel"
    "sample_registry ''plants_steam_ferc1'' = Some ?steam"
    "sample_registry ''two_deps'' = Some ?two"
    by (simp_all add: sample_registry_def)
  note t1 = dispatch_missing_dependency [of sample_registry Map.empty "Some 1" "Some 2"]
  note t2 = dispatch_missing_dependency [of sample_registry "[''p'' \<mapsto> 5]" None None]
  from t1 r(1) have "dispatch sample_registry ''fuel_ferc1'' (Some 1) (Some 2) Map.empty =
      Some (Inr (produce ?fuel (Some 1) (Some 2) Map.empty))"
    by simp
  then have fuel: "dispatch sample_registry ''fuel_ferc1'' (Some 1) (Some 2) Map.empty = Some (Inr 0)"
    by simp
  have "''transformed_fuel'' \<in> set (declared_dependencies ?steam)" by simp
  with t1 r(2) obtain missing where
    "dispatch sample_registry ''plants_steam_ferc1'' (Some 1) (Some 2) Map.empty =
       Some (Inl (MissingDependencyError missing))"
    "missing \<in> set (declared_dependencies ?steam)"
    by (metis empty_iff domIff dom_empty)
  then have steam: "dispatch sample_registry ''plants_steam_ferc1'' (Some 1) (Some 2) Map.empty =
       Some (Inl (MissingDependencyError ''transformed_fuel''))"
    by simp
  have q: "''q'' \<in> set (declared_dependencies ?two)" "[''p'' \<mapsto> (5::nat)] ''q'' = None"
    by simp_all
  with t2 r(3) obtain missing' where
    "dispatch sample_registry ''two_deps'' None None [''p'' \<mapsto> 5] =
       Some (Inl (MissingDependencyError missing'))"
    "missing' \<in> set (declared_dependencies ?two)" "[''p'' \<mapsto> (5::nat)] missing' = None"
    by blast
  then have two: "dispatch sample_registry ''two_deps'' None None [''p'' \<mapsto> 5] =
       Some (Inl (MissingDependencyError ''q''))"
    by (auto split: if_splits)
  from r(1) fuel steam two q show ?thesis by simp
qed

end
